theory Spec2Isabelle
  imports Complex_Main "HOL-Library.Log_Nat" "HOL-Library.Multiset"
begin

section \<open>Go values\<close>

subsection \<open>Integers and maps\<close>

text \<open>
  Go's \<^verbatim>\<open>int\<close> is a 64-bit two's complement integer on the platforms the
  library is built for. It is modelled as a HOL integer, and every arithmetic operation of
  the source is followed by \<open>wrap64\<close>, which reduces the exact result to the
  range \<open>-2^63 .. 2^63 - 1\<close> the way the machine does.
\<close>

definition wrap64 :: "int \<Rightarrow> int" where
  "wrap64 x = (x + 2 ^ 63) mod 2 ^ 64 - 2 ^ 63"

definition in_int64 :: "int \<Rightarrow> bool" where
  "in_int64 x = (- (2 ^ 63) \<le> x \<and> x < 2 ^ 63)"

text \<open>
  A \<^verbatim>\<open>map[string]int\<close> is modelled by an enumeration of its entries. The
  order of the list is the order in which \<^verbatim>\<open>range\<close> visits the entries (Go
  leaves it unspecified), \<open>map_of\<close> is the lookup \<^verbatim>\<open>m[key]\<close> and
  \<open>len\<close> is \<^verbatim>\<open>len(m)\<close>. A value of the Go type holds each key
  once, its size fits an \<^verbatim>\<open>int\<close> and so does every value: \<open>is_map\<close>.
\<close>

type_synonym gomap = "(string \<times> int) list"

definition len :: "'a list \<Rightarrow> int" where
  "len xs = int (length xs)"

definition is_map :: "gomap \<Rightarrow> bool" where
  "is_map m = (distinct (map fst m) \<and> in_int64 (len m) \<and> (\<forall>v \<in> snd ` set m. in_int64 v))"

subsection \<open>Floating point\<close>

text \<open>
  \<^verbatim>\<open>float32\<close> and \<^verbatim>\<open>float64\<close> are the IEEE 754 binary formats. A
  value is a rational number, an infinity or NaN; every operation computes the exact
  result and rounds it to the nearest value of the format, ties to the even significand
  (\<open>fround\<close> with precision \<open>p\<close> and exponent range \<open>emin .. emax\<close>,
  gradual underflow below \<open>2^emin\<close>, overflow to an infinity). The sign of a zero is
  not represented: the one divisor of this program, \<^verbatim>\<open>float64(maxPossibleDistance)\<close>,
  is converted from an integer and so is never the negative zero, and no other operation
  of the program distinguishes the two zeros.
\<close>

datatype gofloat = Finite rat | PosInf | NegInf | NaN

definition pow2 :: "int \<Rightarrow> rat" where
  "pow2 k = (if 0 \<le> k then 2 ^ nat k else 1 / 2 ^ nat (- k))"

text \<open>For \<open>0 < x\<close>, the exponent \<open>e\<close> with \<open>2^e \<le> x < 2^(e+1)\<close>.\<close>

definition floor_log2 :: "rat \<Rightarrow> int" where
  "floor_log2 x = (if 1 \<le> x then bitlen \<lfloor>x\<rfloor> - 1 else - bitlen (\<lceil>1 / x\<rceil> - 1))"

definition round_to_even :: "rat \<Rightarrow> int" where
  "round_to_even x =
     (let f = \<lfloor>x\<rfloor>; r = x - of_int f
      in if r < 1 / 2 then f else if 1 / 2 < r then f + 1 else if even f then f else f + 1)"

definition fround :: "nat \<Rightarrow> int \<Rightarrow> int \<Rightarrow> rat \<Rightarrow> gofloat" where
  "fround p emin emax x =
     (if x = 0 then Finite 0
      else let e = max (floor_log2 \<bar>x\<bar>) emin;
               ulp = pow2 (e - (int p - 1));
               y = of_int (round_to_even (x / ulp)) * ulp
           in if y \<noteq> 0 \<and> emax < floor_log2 \<bar>y\<bar> then (if 0 < x then PosInf else NegInf)
              else Finite y)"

definition round64 :: "rat \<Rightarrow> gofloat" where
  "round64 = fround 53 (- 1022) 1023"

definition round32 :: "rat \<Rightarrow> gofloat" where
  "round32 = fround 24 (- 126) 127"

text \<open>
  The arithmetic operators \<^verbatim>\<open>*\<close>, \<^verbatim>\<open>-\<close> and \<^verbatim>\<open>/\<close>; the first
  argument is the rounding of the operand type.
\<close>

fun fmul :: "(rat \<Rightarrow> gofloat) \<Rightarrow> gofloat \<Rightarrow> gofloat \<Rightarrow> gofloat" where
  "fmul rnd (Finite x) (Finite y) = rnd (x * y)"
| "fmul rnd NaN b = NaN"
| "fmul rnd a NaN = NaN"
| "fmul rnd (Finite x) b =
     (if x = 0 then NaN else if (0 < x) = (b = PosInf) then PosInf else NegInf)"
| "fmul rnd a (Finite y) =
     (if y = 0 then NaN else if (0 < y) = (a = PosInf) then PosInf else NegInf)"
| "fmul rnd a b = (if a = b then PosInf else NegInf)"

fun fsub :: "(rat \<Rightarrow> gofloat) \<Rightarrow> gofloat \<Rightarrow> gofloat \<Rightarrow> gofloat" where
  "fsub rnd (Finite x) (Finite y) = rnd (x - y)"
| "fsub rnd NaN b = NaN"
| "fsub rnd a NaN = NaN"
| "fsub rnd (Finite x) PosInf = NegInf"
| "fsub rnd (Finite x) NegInf = PosInf"
| "fsub rnd a (Finite y) = a"
| "fsub rnd a b = (if a = b then NaN else a)"

fun fdiv :: "(rat \<Rightarrow> gofloat) \<Rightarrow> gofloat \<Rightarrow> gofloat \<Rightarrow> gofloat" where
  "fdiv rnd (Finite x) (Finite y) =
     (if y = 0 then (if x = 0 then NaN else if 0 < x then PosInf else NegInf)
      else rnd (x / y))"
| "fdiv rnd NaN b = NaN"
| "fdiv rnd a NaN = NaN"
| "fdiv rnd (Finite x) b = Finite 0"
| "fdiv rnd a (Finite y) = (if (0 \<le> y) = (a = PosInf) then PosInf else NegInf)"
| "fdiv rnd a b = NaN"

text \<open>The comparisons \<^verbatim>\<open><=\<close> and \<^verbatim>\<open>>\<close>: false when an operand is NaN.\<close>

fun fle :: "gofloat \<Rightarrow> gofloat \<Rightarrow> bool" where
  "fle (Finite x) (Finite y) = (x \<le> y)"
| "fle NaN b = False"
| "fle a NaN = False"
| "fle NegInf b = True"
| "fle a PosInf = True"
| "fle a b = False"

fun fgt :: "gofloat \<Rightarrow> gofloat \<Rightarrow> bool" where
  "fgt (Finite x) (Finite y) = (y < x)"
| "fgt NaN b = False"
| "fgt a NaN = False"
| "fgt a PosInf = False"
| "fgt PosInf b = True"
| "fgt NegInf b = False"
| "fgt a NegInf = True"

text \<open>The conversion \<^verbatim>\<open>float64(i)\<close> of an integer.\<close>

definition float64 :: "int \<Rightarrow> gofloat" where
  "float64 i = round64 (of_int i)"

text \<open>
  The conversion \<^verbatim>\<open>int(f)\<close> of a floating-point value discards the fraction
  (truncation towards zero). When the value is NaN, infinite or outside the range of
  \<^verbatim>\<open>int\<close>, the language leaves the result to the implementation: the first
  argument gives it.
\<close>

definition trunc :: "rat \<Rightarrow> int" where
  "trunc x = (if 0 \<le> x then \<lfloor>x\<rfloor> else \<lceil>x\<rceil>)"

definition float_to_int :: "(gofloat \<Rightarrow> int) \<Rightarrow> gofloat \<Rightarrow> int" where
  "float_to_int invalid f =
     (case f of
        Finite x \<Rightarrow> if in_int64 (trunc x) then trunc x else invalid f
      | _ \<Rightarrow> invalid f)"

subsection \<open>Pointers and panics\<close>

datatype panic = NilPointerDereference

text \<open>A pointer is \<open>None\<close> when nil; dereferencing nil panics.\<close>

definition deref :: "'a option \<Rightarrow> panic + 'a" where
  "deref p = (case p of None \<Rightarrow> Inl NilPointerDereference | Some v \<Rightarrow> Inr v)"

section \<open>Data model\<close>

text \<open>
  Modelled from the spec: the declarations of the structs \<^verbatim>\<open>Language\<close> and
  \<^verbatim>\<open>DetectionResult\<close> are missing from the sources. The spec gives a language
  a name and a profile, which is a rank map, and a result a language name and an integer
  confidence; \<^verbatim>\<open>detection.go\<close> reads and writes exactly these fields
  (\<^verbatim>\<open>language.Profile\<close>, \<^verbatim>\<open>language.Name\<close>,
  \<^verbatim>\<open>DetectionResult{Name: \<dots>, Confidence: \<dots>}\<close>). The field
  \<^verbatim>\<open>Name\<close> of a result is \<open>ResultName\<close> here.
\<close>

record Language =
  Profile :: gomap
  Name :: string

record DetectionResult =
  ResultName :: string
  Confidence :: int

text \<open>
  \<^verbatim>\<open>Languages\<close> is a pointer to a slice, \<open>None\<close> when it is nil. The
  properties below speak of the languages one detector holds, never of two detectors
  that share a slice, so the slice is kept by value.
\<close>

record Detector =
  Languages :: "Language list option"
  MinimumConfidence :: gofloat

text \<open>
  What the methods use and \<^verbatim>\<open>detection.go\<close> does not define: the results the
  implementation gives to an invalid conversion of a \<^verbatim>\<open>float64\<close> and of a
  \<^verbatim>\<open>float32\<close> to \<^verbatim>\<open>int\<close>; the effect of
  \<^verbatim>\<open>sort.Sort(ResByConf(res))\<close> on a slice; and the functions
  \<^verbatim>\<open>CreateOccurenceMap\<close>, \<^verbatim>\<open>CreateRankLookupMap\<close> and
  \<^verbatim>\<open>Analyze\<close> of the package's other file.
\<close>

record env =
  float64_invalid :: "gofloat \<Rightarrow> int"
  float32_invalid :: "gofloat \<Rightarrow> int"
  sort_Sort :: "DetectionResult list \<Rightarrow> DetectionResult list"
  CreateOccurenceMap :: "string \<Rightarrow> int \<Rightarrow> gomap"
  CreateRankLookupMap :: "gomap \<Rightarrow> gomap"
  Analyze :: "string \<Rightarrow> string \<Rightarrow> Language"

text \<open>
  Modelled from the spec: \<^verbatim>\<open>ResByConf\<close>, the \<^verbatim>\<open>sort.Interface\<close> of a
  slice of results, is missing from the sources. The spec has the results
  ``sorted by confidence descending'', so its \<^verbatim>\<open>Less(i, j)\<close> holds when
  element \<open>i\<close> has the greater confidence.
\<close>

definition ResByConf_Less :: "DetectionResult \<Rightarrow> DetectionResult \<Rightarrow> bool" where
  "ResByConf_Less a b = (Confidence b < Confidence a)"

text \<open>
  \<^verbatim>\<open>sort.Sort\<close> permutes the slice so that no element is \<^verbatim>\<open>Less\<close> than
  an earlier one; it is not stable, so the order of equal elements is not fixed.
\<close>

definition sorts :: "(DetectionResult list \<Rightarrow> DetectionResult list) \<Rightarrow> bool" where
  "sorts srt = (\<forall>xs. mset (srt xs) = mset xs
                  \<and> sorted_wrt (\<lambda>a b. \<not> ResByConf_Less b a) (srt xs))"

section \<open>The package\<close>

definition nDepth :: int where
  "nDepth = 4"

text \<open>
  The package variable \<^verbatim>\<open>DefaultMinimumConfidence\<close>: the constant
  \<^verbatim>\<open>0.7\<close> converted to \<^verbatim>\<open>float32\<close>. Nothing in the package
  assigns to it.
\<close>

definition DefaultMinimumConfidence :: gofloat where
  "DefaultMinimumConfidence = round32 (7 / 10)"

definition NewDetector :: Detector where
  "NewDetector = \<lparr>Languages = Some [], MinimumConfidence = DefaultMinimumConfidence\<rparr>"

subsection \<open>GetDistance\<close>

text \<open>
  The body of the loop of \<^verbatim>\<open>GetDistance\<close> for one entry
  \<open>(key, rankA)\<close> of \<open>mapA\<close>, after the test \<^verbatim>\<open>rankA > 300\<close>:
  the value added to \<^verbatim>\<open>result\<close>.
\<close>

definition GetDistance_diff :: "gomap \<Rightarrow> int \<Rightarrow> int \<Rightarrow> string \<Rightarrow> int \<Rightarrow> int" where
  "GetDistance_diff mapB maxDist negMaxDist key rankA =
     (case map_of mapB key of
        Some rankB \<Rightarrow>
          (let diff = wrap64 (rankB - rankA) in
           if diff > maxDist \<or> diff < negMaxDist then maxDist
           else if diff < 0 then wrap64 (diff * (- 1))
           else diff)
      | None \<Rightarrow> maxDist)"

fun GetDistance_loop :: "gomap \<Rightarrow> gomap \<Rightarrow> int \<Rightarrow> int \<Rightarrow> int \<Rightarrow> int" where
  "GetDistance_loop [] mapB maxDist negMaxDist result = result"
| "GetDistance_loop ((key, rankA) # rest) mapB maxDist negMaxDist result =
     (if rankA > 300 then GetDistance_loop rest mapB maxDist negMaxDist result
      else GetDistance_loop rest mapB maxDist negMaxDist
             (wrap64 (result + GetDistance_diff mapB maxDist negMaxDist key rankA)))"

definition GetDistance :: "gomap \<Rightarrow> gomap \<Rightarrow> int \<Rightarrow> int" where
  "GetDistance mapA mapB maxDist =
     (let negMaxDist = wrap64 ((- 1) * maxDist)
      in GetDistance_loop mapA mapB maxDist negMaxDist 0)"

subsection \<open>asPercent and closestFromTable\<close>

definition asPercent :: "env \<Rightarrow> gofloat \<Rightarrow> int" where
  "asPercent e input = float_to_int (float32_invalid e) (fmul round32 input (Finite 100))"

text \<open>The confidence \<^verbatim>\<open>closestFromTable\<close> computes for one language.\<close>

definition confidence_of :: "env \<Rightarrow> gomap \<Rightarrow> int \<Rightarrow> Language \<Rightarrow> int" where
  "confidence_of e lookupMap inputSize language =
     (let lSize = len (Profile language);
          maxPossibleDistance = wrap64 (lSize * inputSize);
          dist = GetDistance lookupMap (Profile language) lSize;
          relativeDistance =
            fsub round64 (Finite 1) (fdiv round64 (float64 dist) (float64 maxPossibleDistance))
      in float_to_int (float64_invalid e) (fmul round64 relativeDistance (Finite 100)))"

fun closestFromTable_loop ::
  "env \<Rightarrow> gomap \<Rightarrow> int \<Rightarrow> Language list \<Rightarrow> DetectionResult list \<Rightarrow> DetectionResult list" where
  "closestFromTable_loop e lookupMap inputSize [] res = res"
| "closestFromTable_loop e lookupMap inputSize (language # rest) res =
     closestFromTable_loop e lookupMap inputSize rest
       (res @ [\<lparr>ResultName = Name language,
                Confidence = confidence_of e lookupMap inputSize language\<rparr>])"

definition closestFromTable :: "env \<Rightarrow> Detector \<Rightarrow> gomap \<Rightarrow> panic + DetectionResult list" where
  "closestFromTable e d lookupMap =
     (let res = [];
          inputSize = len lookupMap;
          inputSize = (if inputSize > 300 then 300 else inputSize)
      in case deref (Languages d) of
           Inl p \<Rightarrow> Inl p
         | Inr languages \<Rightarrow>
             Inr (sort_Sort e (closestFromTable_loop e lookupMap inputSize languages res)))"

subsection \<open>The methods of the detector\<close>

text \<open>
  A method returns the detector as it leaves it and its result, or the panic that ended
  it. \<^verbatim>\<open>GetClosestLanguage\<close> also returns the lines it printed.
\<close>

definition GetLanguages :: "env \<Rightarrow> Detector \<Rightarrow> string \<Rightarrow> Detector \<times> (panic + DetectionResult list)" where
  "GetLanguages e d text =
     (let occ = CreateOccurenceMap e text nDepth;
          lmap = CreateRankLookupMap e occ;
          results = closestFromTable e d lmap
      in (d, results))"

definition GetClosestLanguage ::
  "env \<Rightarrow> Detector \<Rightarrow> string \<Rightarrow> Detector \<times> string list \<times> (panic + string)" where
  "GetClosestLanguage e d0 text =
     (let d = (if fle (MinimumConfidence d0) (Finite 0) \<or> fgt (MinimumConfidence d0) (Finite 1)
               then d0\<lparr>MinimumConfidence := DefaultMinimumConfidence\<rparr> else d0)
      in case deref (Languages d) of
           Inl p \<Rightarrow> (d, [], Inl p)
         | Inr languages \<Rightarrow>
             if len languages = 0
             then (d, [''no languages configured for this detector''], Inr ''undefined'')
             else
               (let occ = CreateOccurenceMap e text nDepth;
                    lmap = CreateRankLookupMap e occ
                in case closestFromTable e d lmap of
                     Inl p \<Rightarrow> (d, [], Inl p)
                   | Inr c \<Rightarrow>
                       if len c = 0 \<or> Confidence (c ! 0) < asPercent e (MinimumConfidence d)
                       then (d, [], Inr ''undefined'')
                       else (d, [], Inr (ResultName (c ! 0)))))"

fun AddLanguage_loop :: "Language list \<Rightarrow> Language list \<Rightarrow> Language list" where
  "AddLanguage_loop [] l = l"
| "AddLanguage_loop (language # rest) l = AddLanguage_loop rest (l @ [language])"

definition AddLanguage :: "Detector \<Rightarrow> Language list \<Rightarrow> panic + Detector" where
  "AddLanguage d0 languages =
     (let d = (if Languages d0 = None then d0\<lparr>Languages := Some []\<rparr> else d0)
      in case deref (Languages d) of
           Inl p \<Rightarrow> Inl p
         | Inr l \<Rightarrow> Inr (d\<lparr>Languages := Some (AddLanguage_loop languages l)\<rparr>))"

definition AddLanguageFromText :: "env \<Rightarrow> Detector \<Rightarrow> string \<Rightarrow> string \<Rightarrow> panic + Detector" where
  "AddLanguageFromText e d0 textToAnalyze languageName =
     (let d = (if Languages d0 = None then d0\<lparr>Languages := Some []\<rparr> else d0);
          analyzedLanguage = Analyze e textToAnalyze languageName
      in case deref (Languages d) of
           Inl p \<Rightarrow> Inl p
         | Inr l \<Rightarrow> (let updatedList = l @ [analyzedLanguage]
                     in Inr (d\<lparr>Languages := Some updatedList\<rparr>)))"

section \<open>The notions of the specification\<close>

text \<open>
  A rank map gives each token a positive rank; in a dense one the ranks of the
  \<open>K\<close> tokens are \<open>1, \<dots>, K\<close>.
\<close>

definition rank_map :: "gomap \<Rightarrow> bool" where
  "rank_map m = (is_map m \<and> (\<forall>r \<in> snd ` set m. 0 < r))"

definition dense :: "gomap \<Rightarrow> bool" where
  "dense m = (snd ` set m = {1 .. len m})"

text \<open>
  The out-of-place distance in the words of the specification: the tokens of the sample
  of rank at most 300 are considered; a considered token contributes \<open>maxDist\<close> when
  the profile does not have it, and its rank displacement capped at \<open>maxDist\<close> when
  it does.
\<close>

definition considered :: "gomap \<Rightarrow> string set" where
  "considered sample = fst ` {entry \<in> set sample. snd entry \<le> 300}"

definition rank_of :: "gomap \<Rightarrow> string \<Rightarrow> int" where
  "rank_of m key = (case map_of m key of Some r \<Rightarrow> r | None \<Rightarrow> 0)"

definition contribution :: "gomap \<Rightarrow> int \<Rightarrow> string \<Rightarrow> int \<Rightarrow> int" where
  "contribution profile maxDist key rankA =
     (case map_of profile key of
        None \<Rightarrow> maxDist
      | Some rankB \<Rightarrow> min \<bar>rankB - rankA\<bar> maxDist)"

definition out_of_place :: "gomap \<Rightarrow> gomap \<Rightarrow> int \<Rightarrow> int" where
  "out_of_place sample profile maxDist =
     (\<Sum>key \<in> considered sample. contribution profile maxDist key (rank_of sample key))"

definition considered_entries :: "gomap \<Rightarrow> gomap" where
  "considered_entries sample = filter (\<lambda>entry. snd entry \<le> 300) sample"

text \<open>The result \<^verbatim>\<open>closestFromTable\<close> appends for one language.\<close>

definition result_of :: "env \<Rightarrow> gomap \<Rightarrow> int \<Rightarrow> Language \<Rightarrow> DetectionResult" where
  "result_of e lookupMap inputSize language =
     \<lparr>ResultName = Name language, Confidence = confidence_of e lookupMap inputSize language\<rparr>"

text \<open>A threshold that lies in the interval \<open>(0, 1]\<close>.\<close>

definition in_unit_interval :: "gofloat \<Rightarrow> bool" where
  "in_unit_interval f = (case f of Finite x \<Rightarrow> 0 < x \<and> x \<le> 1 | _ \<Rightarrow> False)"

section \<open>Environments for the examples\<close>

text \<open>
  Two implementations of the invalid conversions: the amd64 instructions give the
  smallest integer for every invalid operand, the arm64 instructions give zero for NaN
  and the nearest bound of the range otherwise.
\<close>

definition amd64_invalid :: "gofloat \<Rightarrow> int" where
  "amd64_invalid f = - (2 ^ 63)"

definition arm64_invalid :: "gofloat \<Rightarrow> int" where
  "arm64_invalid f =
     (case f of
        NaN \<Rightarrow> 0
      | PosInf \<Rightarrow> 2 ^ 63 - 1
      | NegInf \<Rightarrow> - (2 ^ 63)
      | Finite x \<Rightarrow> if 0 < x then 2 ^ 63 - 1 else - (2 ^ 63))"

text \<open>A sort that meets \<open>sorts\<close>: insertion by descending confidence.\<close>

definition insertion_sort :: "DetectionResult list \<Rightarrow> DetectionResult list" where
  "insertion_sort = sort_key (\<lambda>r. - Confidence r)"

text \<open>
  The examples need some value for the three functions of the package's other file. This
  stand-in counts the letters of the text and ranks them by descending count; the
  theorems below hold for every environment and do not depend on it.
\<close>

definition count_letters :: "string \<Rightarrow> int \<Rightarrow> gomap" where
  "count_letters text depth = map (\<lambda>c. ([c], int (count_list text c))) (remdups text)"

definition rank_by_count :: "gomap \<Rightarrow> gomap" where
  "rank_by_count occ =
     zip (map fst (sort_key (\<lambda>entry. - snd entry) occ)) [1 ..< 1 + length occ]"

definition example_env :: "(gofloat \<Rightarrow> int) \<Rightarrow> env" where
  "example_env invalid =
     \<lparr>float64_invalid = invalid, float32_invalid = invalid, sort_Sort = insertion_sort,
      CreateOccurenceMap = count_letters, CreateRankLookupMap = rank_by_count,
      Analyze = (\<lambda>text name.
        \<lparr>Profile = rank_by_count (count_letters text nDepth), Name = name\<rparr>)\<rparr>"

definition shifted_profile :: gomap where
  "shifted_profile = [(''b'', 1), (''c'', 2), (''d'', 3), (''a'', 4), (''e'', 5),
                      (''f'', 6), (''g'', 7), (''h'', 8), (''i'', 9), (''j'', 10)]"

text \<open>Two detectors for the examples.\<close>

definition two_languages :: Detector where
  "two_languages =
     \<lparr>Languages = Some [\<lparr>Profile = shifted_profile, Name = ''xx''\<rparr>,
                        \<lparr>Profile = [(''a'', 1), (''b'', 2)], Name = ''yy''\<rparr>],
      MinimumConfidence = DefaultMinimumConfidence\<rparr>"

definition one_language :: "gofloat \<Rightarrow> Detector" where
  "one_language threshold =
     \<lparr>Languages = Some [\<lparr>Profile = shifted_profile, Name = ''xx''\<rparr>],
      MinimumConfidence = threshold\<rparr>"

section \<open>Integer arithmetic\<close>

lemma wrap64_id: "in_int64 x \<Longrightarrow> wrap64 x = x"
  by (simp add: wrap64_def in_int64_def)

lemma wrap64_range: "in_int64 (wrap64 x)"
proof -
  have "0 \<le> (x + 2 ^ 63) mod 2 ^ 64" "(x + 2 ^ 63) mod 2 ^ 64 < (2 ^ 64 :: int)"
    by simp_all
  then show ?thesis by (simp add: wrap64_def in_int64_def)
qed

lemma GetDistance_diff_exact:
  assumes "0 \<le> maxDist" "maxDist < 2 ^ 63"
    and "\<And>rankB. map_of mapB key = Some rankB \<Longrightarrow> in_int64 (rankB - rankA)"
  shows "GetDistance_diff mapB maxDist (- maxDist) key rankA
         = contribution mapB maxDist key rankA"
proof (cases "map_of mapB key")
  case None
  then show ?thesis by (simp add: GetDistance_diff_def contribution_def)
next
  case (Some rankB)
  have d: "wrap64 (rankB - rankA) = rankB - rankA"
    using assms(3) [OF Some] by (rule wrap64_id)
  show ?thesis
  proof (cases "rankB - rankA > maxDist \<or> rankB - rankA < - maxDist")
    case True
    then show ?thesis
      using assms(1) by (auto simp: GetDistance_diff_def contribution_def Some d Let_def)
  next
    case False
    then have "in_int64 ((rankB - rankA) * (- 1))"
      using assms(1,2) by (auto simp: in_int64_def)
    then have "wrap64 ((rankB - rankA) * (- 1)) = - (rankB - rankA)"
      by (simp add: wrap64_id)
    with False show ?thesis
      by (auto simp: GetDistance_diff_def contribution_def Some d Let_def)
  qed
qed

lemma contribution_range:
  "0 \<le> maxDist \<Longrightarrow> 0 \<le> contribution mapB maxDist key rankA \<and> contribution mapB maxDist key rankA \<le> maxDist"
  by (auto simp: contribution_def split: option.splits)

lemma GetDistance_loop_sum_list:
  assumes "0 \<le> maxDist" "maxDist < 2 ^ 63"
    and "\<And>key rankA rankB. (key, rankA) \<in> set xs \<Longrightarrow> rankA \<le> 300 \<Longrightarrow> map_of mapB key = Some rankB
           \<Longrightarrow> in_int64 (rankB - rankA)"
    and "0 \<le> acc"
    and "acc + (\<Sum>e \<leftarrow> considered_entries xs. contribution mapB maxDist (fst e) (snd e)) < 2 ^ 63"
  shows "GetDistance_loop xs mapB maxDist (- maxDist) acc
         = acc + (\<Sum>e \<leftarrow> considered_entries xs. contribution mapB maxDist (fst e) (snd e))"
  using assms(3-5)
proof (induction xs arbitrary: acc)
  case Nil
  then show ?case by (simp add: considered_entries_def)
next
  case (Cons e xs)
  obtain key rankA where e: "e = (key, rankA)" by (cases e)
  have rest_nonneg: "0 \<le> (\<Sum>e \<leftarrow> considered_entries xs. contribution mapB maxDist (fst e) (snd e))"
    by (rule sum_list_nonneg) (use contribution_range [OF assms(1)] in auto)
  show ?case
  proof (cases "rankA > 300")
    case True
    with Cons show ?thesis by (simp add: e considered_entries_def)
  next
    case False
    let ?c = "contribution mapB maxDist key rankA"
    have diff: "GetDistance_diff mapB maxDist (- maxDist) key rankA = ?c"
      using Cons.prems(1) [of key rankA] False
      by (intro GetDistance_diff_exact assms(1,2)) (simp add: e)
    have c: "0 \<le> ?c" using contribution_range [OF assms(1)] by blast
    have total: "acc + ?c + (\<Sum>e \<leftarrow> considered_entries xs. contribution mapB maxDist (fst e) (snd e)) < 2 ^ 63"
      using Cons.prems(3) False by (simp add: e considered_entries_def)
    have "in_int64 (acc + ?c)"
      using Cons.prems(2) c total rest_nonneg by (simp add: in_int64_def)
    then have w: "wrap64 (acc + ?c) = acc + ?c" by (rule wrap64_id)
    have "GetDistance_loop xs mapB maxDist (- maxDist) (acc + ?c)
          = acc + ?c + (\<Sum>e \<leftarrow> considered_entries xs. contribution mapB maxDist (fst e) (snd e))"
      using Cons.prems(1) Cons.prems(2) c total by (intro Cons.IH) auto
    with False show ?thesis
      by (simp add: e diff w considered_entries_def)
  qed
qed

lemma rank_of_entry: "distinct (map fst m) \<Longrightarrow> (key, r) \<in> set m \<Longrightarrow> rank_of m key = r"
  by (simp add: rank_of_def)

lemma out_of_place_sum_list:
  assumes "distinct (map fst sample)"
  shows "out_of_place sample profile maxDist
         = (\<Sum>e \<leftarrow> considered_entries sample. contribution profile maxDist (fst e) (snd e))"
proof -
  let ?es = "considered_entries sample"
  have dk: "distinct (map fst ?es)"
    using assms by (simp add: considered_entries_def distinct_map_filter)
  then have d: "distinct ?es" and inj: "inj_on fst (set ?es)"
    by (simp_all add: distinct_map)
  have set_es: "set ?es = {e \<in> set sample. snd e \<le> 300}"
    by (auto simp: considered_entries_def)
  have "out_of_place sample profile maxDist
        = (\<Sum>e \<in> set ?es. contribution profile maxDist (fst e) (rank_of sample (fst e)))"
    unfolding out_of_place_def considered_def set_es [symmetric]
    by (simp add: sum.reindex [OF inj])
  also have "\<dots> = (\<Sum>e \<in> set ?es. contribution profile maxDist (fst e) (snd e))"
    by (rule sum.cong) (auto simp: set_es rank_of_entry [OF assms])
  also have "\<dots> = (\<Sum>e \<leftarrow> ?es. contribution profile maxDist (fst e) (snd e))"
    by (rule sum.distinct_set_conv_list [OF d])
  finally show ?thesis .
qed

lemma rank_map_diff:
  assumes "rank_map sample" "rank_map profile"
    and "(key, rankA) \<in> set sample" "map_of profile key = Some rankB"
  shows "in_int64 (rankB - rankA)"
proof -
  have "(key, rankB) \<in> set profile" using assms(4) by (rule map_of_SomeD)
  then have "rankB \<in> snd ` set profile" by force
  then have b: "0 < rankB" "in_int64 rankB" using assms(2) by (auto simp: rank_map_def is_map_def)
  have "rankA \<in> snd ` set sample" using assms(3) by force
  then have a: "0 < rankA" "in_int64 rankA" using assms(1) by (auto simp: rank_map_def is_map_def)
  from a b show ?thesis by (simp add: in_int64_def)
qed

section \<open>The out-of-place distance\<close>

text \<open>
  Claim C1. For a sample rank map and a profile rank map, with \<open>maxDist\<close> the
  size of the profile, \<^verbatim>\<open>GetDistance\<close> returns the sum, over exactly the tokens
  of the sample whose rank is at most 300, of \<open>maxDist\<close> for a token the profile
  does not have and of \<open>min \<bar>rankB - rankA\<bar> maxDist\<close> for a token it has; the
  tokens of rank above 300 add nothing. The sum does not depend on the order in which
  \<^verbatim>\<open>range\<close> visits the sample. Ranks are positive values of \<^verbatim>\<open>int\<close>,
  and the sum fits an \<^verbatim>\<open>int\<close>: then no operation of the loop wraps around.
\<close>

theorem GetDistance_out_of_place:
  assumes "rank_map sample" and "rank_map profile"
    and "maxDist = len profile"
    and "out_of_place sample profile maxDist < 2 ^ 63"
  shows "GetDistance sample profile maxDist = out_of_place sample profile maxDist"
proof -
  have m: "0 \<le> maxDist" "maxDist < 2 ^ 63"
    using assms(2) by (simp_all add: assms(3) len_def rank_map_def is_map_def in_int64_def)
  have neg: "wrap64 (- maxDist) = - maxDist"
    using m by (intro wrap64_id) (auto simp: in_int64_def)
  have s: "out_of_place sample profile maxDist
        = (\<Sum>e \<leftarrow> considered_entries sample. contribution profile maxDist (fst e) (snd e))"
    using assms(1) by (intro out_of_place_sum_list) (simp add: rank_map_def is_map_def)
  have "GetDistance_loop sample profile maxDist (- maxDist) 0
        = 0 + (\<Sum>e \<leftarrow> considered_entries sample. contribution profile maxDist (fst e) (snd e))"
    using assms(4) rank_map_diff [OF assms(1,2)]
    by (intro GetDistance_loop_sum_list m) (simp_all add: s)
  then show ?thesis
    by (simp add: GetDistance_def neg s)
qed

theorem GetDistance_out_of_place_witness:
  "rank_map [(''th'', 1), (''e'', 2), (''qu'', 3), (''zz'', 301)]
   \<and> rank_map [(''e'', 1), (''a'', 2), (''th'', 3), (''qu'', 9)]
   \<and> out_of_place [(''th'', 1), (''e'', 2), (''qu'', 3), (''zz'', 301)]
        [(''e'', 1), (''a'', 2), (''th'', 3), (''qu'', 9)] 4 = 7
   \<and> GetDistance [(''th'', 1), (''e'', 2), (''qu'', 3), (''zz'', 301)]
        [(''e'', 1), (''a'', 2), (''th'', 3), (''qu'', 9)] 4 = 7"
proof -
  let ?s = "[(''th'', 1), (''e'', 2), (''qu'', 3), (''zz'', 301)] :: gomap"
  let ?p = "[(''e'', 1), (''a'', 2), (''th'', 3), (''qu'', 9)] :: gomap"
  have s: "rank_map ?s" and p: "rank_map ?p"
    by (simp_all add: rank_map_def is_map_def in_int64_def len_def)
  have o: "out_of_place ?s ?p 4 = 7"
    by (simp add: out_of_place_sum_list considered_entries_def contribution_def)
  have "GetDistance ?s ?p 4 = out_of_place ?s ?p 4"
    by (rule GetDistance_out_of_place [OF s p]) (simp_all add: o len_def)
  with s p o show ?thesis by simp
qed

section \<open>Adding languages\<close>

lemma AddLanguage_loop_append: "AddLanguage_loop languages l = l @ languages"
  by (induction languages arbitrary: l) simp_all

text \<open>
  Claim C10. \<^verbatim>\<open>AddLanguage\<close> and \<^verbatim>\<open>AddLanguageFromText\<close> never
  panic, also on a detector whose \<^verbatim>\<open>Languages\<close> pointer is nil: the nil
  pointer is first replaced by an empty collection, and the collection afterwards is the
  one held before, in order, followed by the added languages (for
  \<^verbatim>\<open>AddLanguageFromText\<close>, by the language \<^verbatim>\<open>Analyze\<close> returns).
\<close>

theorem AddLanguage_appends:
  "AddLanguage d languages
     = Inr (d\<lparr>Languages := Some ((case Languages d of None \<Rightarrow> [] | Some l \<Rightarrow> l) @ languages)\<rparr>)
   \<and> AddLanguageFromText e d textToAnalyze languageName
     = Inr (d\<lparr>Languages := Some ((case Languages d of None \<Rightarrow> [] | Some l \<Rightarrow> l)
                                     @ [Analyze e textToAnalyze languageName])\<rparr>)"
  by (cases "Languages d")
     (simp_all add: AddLanguage_def AddLanguageFromText_def deref_def AddLanguage_loop_append)

section \<open>What detection leaves of the detector\<close>

lemma written_outside:
  "fle f (Finite 0) \<or> fgt f (Finite 1) \<Longrightarrow> \<not> in_unit_interval f"
  by (cases f) (auto simp: in_unit_interval_def)

lemma outside_written:
  "f \<noteq> NaN \<Longrightarrow> \<not> in_unit_interval f \<Longrightarrow> fle f (Finite 0) \<or> fgt f (Finite 1)"
  by (cases f) (auto simp: in_unit_interval_def)

lemma GetClosestLanguage_detector:
  "fst (GetClosestLanguage e d text)
     = (if fle (MinimumConfidence d) (Finite 0) \<or> fgt (MinimumConfidence d) (Finite 1)
        then d\<lparr>MinimumConfidence := DefaultMinimumConfidence\<rparr> else d)"
  by (simp add: GetClosestLanguage_def Let_def split: sum.splits)

text \<open>
  Claim C9. \<^verbatim>\<open>GetLanguages\<close> leaves the detector as it was.
  \<^verbatim>\<open>GetClosestLanguage\<close> leaves the collection as it was; it either leaves the
  whole detector as it was, or the threshold was outside \<open>(0, 1]\<close> and the only
  change is that the threshold is now the default. This holds also when the call panics.
\<close>

theorem detection_frame:
  "fst (GetLanguages e d text) = d
   \<and> Languages (fst (GetClosestLanguage e d text)) = Languages d
   \<and> (fst (GetClosestLanguage e d text) = d
      \<or> (\<not> in_unit_interval (MinimumConfidence d)
         \<and> fst (GetClosestLanguage e d text) = d\<lparr>MinimumConfidence := DefaultMinimumConfidence\<rparr>))"
  using written_outside [of "MinimumConfidence d"]
  by (auto simp: GetClosestLanguage_detector GetLanguages_def Let_def)

section \<open>A detector without languages\<close>

text \<open>
  Claim C7. On a detector whose collection is empty, \<^verbatim>\<open>GetClosestLanguage\<close>
  prints the diagnostic line and returns the undetermined value
  (\<^verbatim>\<open>"undefined"\<close>), whatever the text.
\<close>

theorem GetClosestLanguage_no_languages:
  assumes "Languages d = Some []"
  shows "snd (GetClosestLanguage e d text)
         = ([''no languages configured for this detector''], Inr ''undefined'')"
  using assms by (simp add: GetClosestLanguage_def Let_def deref_def len_def)

theorem GetClosestLanguage_no_languages_witness:
  "Languages NewDetector = Some []
   \<and> snd (GetClosestLanguage (example_env amd64_invalid) NewDetector ''the cat'')
       = ([''no languages configured for this detector''], Inr ''undefined'')"
  using GetClosestLanguage_no_languages
    [of NewDetector "example_env amd64_invalid" "''the cat''"]
  by (simp add: NewDetector_def)

section \<open>The results of closestFromTable\<close>

lemma closestFromTable_loop_map:
  "closestFromTable_loop e lookupMap inputSize languages res
   = res @ map (result_of e lookupMap inputSize) languages"
  by (induction languages arbitrary: res) (simp_all add: result_of_def)

lemma closestFromTable_Some:
  assumes "Languages d = Some languages"
  shows "closestFromTable e d lookupMap
         = Inr (sort_Sort e (map (result_of e lookupMap (min (len lookupMap) 300)) languages))"
proof -
  have "(if len lookupMap > 300 then 300 else len lookupMap) = min (len lookupMap) 300"
    by simp
  then show ?thesis
    using assms by (simp add: closestFromTable_def deref_def closestFromTable_loop_map Let_def)
qed

lemma closestFromTable_None:
  "Languages d = None \<Longrightarrow> closestFromTable e d lookupMap = Inl NilPointerDereference"
  by (simp add: closestFromTable_def deref_def Let_def)

lemma sorts_mset: "sorts srt \<Longrightarrow> mset (srt xs) = mset xs"
  by (simp add: sorts_def)

lemma sorts_descending:
  "sorts srt \<Longrightarrow> sorted_wrt (\<lambda>a b. Confidence b \<le> Confidence a) (srt xs)"
proof -
  assume "sorts srt"
  then have "sorted_wrt (\<lambda>a b. \<not> ResByConf_Less b a) (srt xs)"
    by (simp add: sorts_def)
  then show ?thesis
    by (rule sorted_wrt_mono_rel [rotated]) (simp add: ResByConf_Less_def)
qed

lemma sorts_insertion_sort: "sorts insertion_sort"
proof -
  have "sorted_wrt (\<lambda>a b. \<not> ResByConf_Less b a) (insertion_sort xs)" for xs
  proof -
    have "sorted (map (\<lambda>r. - Confidence r) (sort_key (\<lambda>r. - Confidence r) xs))"
      by (rule sorted_sort_key)
    then show ?thesis
      by (simp add: insertion_sort_def sorted_map ResByConf_Less_def not_less)
  qed
  then show ?thesis by (simp add: sorts_def insertion_sort_def)
qed

text \<open>
  Claim C8. When \<^verbatim>\<open>sort.Sort\<close> sorts by \<^verbatim>\<open>ResByConf\<close>, the
  sequence \<^verbatim>\<open>GetLanguages\<close> returns has one result for each language the
  detector holds, under the language's name, and is sorted by descending confidence. A
  detector whose \<^verbatim>\<open>Languages\<close> pointer is nil returns no sequence: the call
  panics.
\<close>

theorem GetLanguages_sorted:
  assumes "sorts (sort_Sort e)"
  shows "case Languages d of
           None \<Rightarrow> snd (GetLanguages e d text) = Inl NilPointerDereference
         | Some languages \<Rightarrow>
             (\<exists>results. snd (GetLanguages e d text) = Inr results
                \<and> mset (map ResultName results) = mset (map Name languages)
                \<and> sorted_wrt (\<lambda>a b. Confidence b \<le> Confidence a) results)"
proof (cases "Languages d")
  case None
  then show ?thesis by (simp add: GetLanguages_def closestFromTable_None Let_def)
next
  case (Some languages)
  let ?lmap = "CreateRankLookupMap e (CreateOccurenceMap e text nDepth)"
  let ?xs = "map (result_of e ?lmap (min (len ?lmap) 300)) languages"
  have r: "snd (GetLanguages e d text) = Inr (sort_Sort e ?xs)"
    by (simp add: GetLanguages_def closestFromTable_Some [OF Some] Let_def)
  have "mset (map ResultName (sort_Sort e ?xs)) = image_mset ResultName (mset (sort_Sort e ?xs))"
    by simp
  also have "\<dots> = image_mset ResultName (mset ?xs)"
    by (simp only: sorts_mset [OF assms])
  also have "\<dots> = mset (map Name languages)"
    by (simp add: result_of_def multiset.map_comp comp_def)
  finally have n: "mset (map ResultName (sort_Sort e ?xs)) = mset (map Name languages)" .
  show ?thesis
    using r n sorts_descending [OF assms, of ?xs] by (simp add: Some)
qed

lemma sorts_example_env: "sorts (sort_Sort (example_env invalid))"
  by (simp add: example_env_def sorts_insertion_sort)

theorem GetLanguages_sorted_witness:
  "sorts (sort_Sort (example_env amd64_invalid))
   \<and> snd (GetLanguages (example_env amd64_invalid) two_languages ''a'')
       = Inr [\<lparr>ResultName = ''yy'', Confidence = 100\<rparr>, \<lparr>ResultName = ''xx'', Confidence = 70\<rparr>]
   \<and> (\<exists>results. snd (GetLanguages (example_env amd64_invalid) two_languages ''a'') = Inr results
         \<and> mset (map ResultName results) = mset [''xx'', ''yy'']
         \<and> sorted_wrt (\<lambda>a b. Confidence b \<le> Confidence a) results)"
proof -
  have "snd (GetLanguages (example_env amd64_invalid) two_languages ''a'')
        = Inr [\<lparr>ResultName = ''yy'', Confidence = 100\<rparr>, \<lparr>ResultName = ''xx'', Confidence = 70\<rparr>]"
    by code_simp
  then show ?thesis
    using GetLanguages_sorted [OF sorts_example_env, of amd64_invalid two_languages "''a''"]
    by (simp add: sorts_example_env two_languages_def)
qed

section \<open>The threshold of GetClosestLanguage\<close>

lemma asPercent_default: "asPercent e (round32 (7 / 10)) = 70"
proof -
  have "fmul round32 (round32 (7 / 10)) (Finite 100) = Finite 70"
    by code_simp
  then show ?thesis
    by (simp add: asPercent_def float_to_int_def trunc_def in_int64_def)
qed

text \<open>
  Claim C4, as amended. For a detector that holds at least one language, the results of
  \<^verbatim>\<open>GetLanguages\<close> start with a result \<open>c\<close> of the greatest confidence,
  and \<^verbatim>\<open>GetClosestLanguage\<close> returns the name of \<open>c\<close> exactly when the
  confidence of \<open>c\<close> is at least \<^verbatim>\<open>asPercent\<close> of the threshold (the
  threshold the call leaves in the detector: the default when the given one was replaced),
  and \<^verbatim>\<open>"undefined"\<close> otherwise. \<^verbatim>\<open>asPercent\<close> is the integer part of
  the \<^verbatim>\<open>float32\<close> product of the threshold and 100; for the threshold 0.7
  it is 70, so a confidence of 65 gives \<^verbatim>\<open>"undefined"\<close> and one of 70 or more
  gives the name.
\<close>

theorem GetClosestLanguage_threshold:
  assumes "sorts (sort_Sort e)" and "Languages d = Some (language # languages)"
  shows "(\<exists>c cs. snd (GetLanguages e d text) = Inr (c # cs)
            \<and> (\<forall>r \<in> set cs. Confidence r \<le> Confidence c)
            \<and> snd (GetClosestLanguage e d text)
                = ([], Inr (if asPercent e (MinimumConfidence (fst (GetClosestLanguage e d text)))
                               \<le> Confidence c
                            then ResultName c else ''undefined'')))
         \<and> asPercent e (round32 (7 / 10)) = 70"
proof -
  let ?d = "fst (GetClosestLanguage e d text)"
  let ?lmap = "CreateRankLookupMap e (CreateOccurenceMap e text nDepth)"
  let ?xs = "map (result_of e ?lmap (min (len ?lmap) 300)) (language # languages)"
  have L: "Languages ?d = Some (language # languages)"
    by (simp add: GetClosestLanguage_detector assms(2))
  have "mset (sort_Sort e ?xs) = mset ?xs" by (rule sorts_mset [OF assms(1)])
  then have "sort_Sort e ?xs \<noteq> []" by auto
  then obtain c cs where cs: "sort_Sort e ?xs = c # cs" by (cases "sort_Sort e ?xs") auto
  have "sorted_wrt (\<lambda>a b. Confidence b \<le> Confidence a) (sort_Sort e ?xs)"
    by (rule sorts_descending [OF assms(1)])
  then have "sorted_wrt (\<lambda>a b. Confidence b \<le> Confidence a) (c # cs)"
    by (simp only: cs)
  then have top: "\<forall>r \<in> set cs. Confidence r \<le> Confidence c"
    by simp
  have g: "snd (GetLanguages e d text) = Inr (c # cs)"
    unfolding cs [symmetric]
    by (simp add: GetLanguages_def closestFromTable_Some [OF assms(2)] Let_def)
  have t: "closestFromTable e ?d ?lmap = Inr (c # cs)"
    unfolding cs [symmetric]
    by (simp add: closestFromTable_Some [OF L])
  have "snd (GetClosestLanguage e d text)
        = ([], Inr (if asPercent e (MinimumConfidence ?d) \<le> Confidence c
                    then ResultName c else ''undefined''))"
    using t L unfolding GetClosestLanguage_detector
    by (auto simp: GetClosestLanguage_def Let_def deref_def len_def assms(2))
  with g top show ?thesis by (simp add: asPercent_default)
qed

theorem GetClosestLanguage_threshold_witness:
  "sorts (sort_Sort (example_env amd64_invalid))
   \<and> Languages (one_language DefaultMinimumConfidence)
       = Some [\<lparr>Profile = shifted_profile, Name = ''xx''\<rparr>]
   \<and> snd (GetLanguages (example_env amd64_invalid) (one_language DefaultMinimumConfidence) ''a'')
       = Inr [\<lparr>ResultName = ''xx'', Confidence = 70\<rparr>]
   \<and> asPercent (example_env amd64_invalid)
         (MinimumConfidence (fst (GetClosestLanguage (example_env amd64_invalid)
            (one_language DefaultMinimumConfidence) ''a''))) = 70
   \<and> snd (GetClosestLanguage (example_env amd64_invalid) (one_language DefaultMinimumConfidence) ''a'')
       = ([], Inr ''xx'')"
proof -
  let ?e = "example_env amd64_invalid"
  let ?d = "one_language DefaultMinimumConfidence"
  have L: "Languages ?d = Some [\<lparr>Profile = shifted_profile, Name = ''xx''\<rparr>]"
    by (simp add: one_language_def)
  have g: "snd (GetLanguages ?e ?d ''a'') = Inr [\<lparr>ResultName = ''xx'', Confidence = 70\<rparr>]"
    by code_simp
  have m: "MinimumConfidence (fst (GetClosestLanguage ?e ?d ''a'')) = round32 (7 / 10)"
    by code_simp
  from GetClosestLanguage_threshold [OF sorts_example_env [of amd64_invalid] L, of "''a''"] g m
  have "snd (GetClosestLanguage ?e ?d ''a'') = ([], Inr ''xx'')"
    and "asPercent ?e (round32 (7 / 10)) = 70"
    by auto
  with L g m show ?thesis by (simp add: sorts_example_env)
qed

text \<open>
  Claim C4 as written compares the fraction \<open>confidence / 100\<close> with the
  threshold. With the threshold \<^verbatim>\<open>float32(0.704)\<close> and a top confidence of 70
  the fraction is below the threshold, and the name is returned all the same: the
  threshold counts as 70 percent. (The text \<^verbatim>\<open>"a"\<close> stands for any text whose
  rank map is \<open>{a: 1}\<close>.)
\<close>

theorem GetClosestLanguage_fraction_counterexample:
  "round32 (88 / 125) = Finite (1476395 / 2097152)
   \<and> snd (GetLanguages (example_env amd64_invalid) (one_language (round32 (88 / 125))) ''a'')
       = Inr [\<lparr>ResultName = ''xx'', Confidence = 70\<rparr>]
   \<and> (70 :: rat) / 100 < 1476395 / 2097152
   \<and> snd (GetClosestLanguage (example_env amd64_invalid) (one_language (round32 (88 / 125))) ''a'')
       = ([], Inr ''xx'')"
proof -
  have "round32 (88 / 125) = Finite (1476395 / 2097152)"
    by code_simp
  moreover have "snd (GetLanguages (example_env amd64_invalid)
                   (one_language (round32 (88 / 125))) ''a'')
                 = Inr [\<lparr>ResultName = ''xx'', Confidence = 70\<rparr>]"
    by code_simp
  moreover have "snd (GetClosestLanguage (example_env amd64_invalid)
                   (one_language (round32 (88 / 125))) ''a'') = ([], Inr ''xx'')"
    by code_simp
  ultimately show ?thesis by simp
qed

section \<open>Bounds of the distance and of the confidence\<close>

text \<open>
  Every value the loop of \<^verbatim>\<open>GetDistance\<close> adds lies between 0 and
  \<open>maxDist\<close>, whatever the ranks. In a dense rank map at most 300 tokens have a
  rank of at most 300, so the distance to a profile of size \<open>S\<close> is at most
  \<open>S * min (len sample) 300\<close>.
\<close>

lemma GetDistance_diff_range:
  assumes "0 \<le> maxDist" "maxDist < 2 ^ 63"
  shows "0 \<le> GetDistance_diff mapB maxDist (- maxDist) key rankA
         \<and> GetDistance_diff mapB maxDist (- maxDist) key rankA \<le> maxDist"
proof (cases "map_of mapB key")
  case None
  then show ?thesis using assms by (simp add: GetDistance_diff_def)
next
  case (Some rankB)
  let ?d = "wrap64 (rankB - rankA)"
  show ?thesis
  proof (cases "?d > maxDist \<or> ?d < - maxDist")
    case True
    then show ?thesis using assms by (auto simp: GetDistance_diff_def Some Let_def)
  next
    case False
    then have "in_int64 (- ?d)" using assms by (auto simp: in_int64_def)
    then have "wrap64 (- ?d) = - ?d" by (rule wrap64_id)
    with False show ?thesis using assms by (auto simp: GetDistance_diff_def Some Let_def)
  qed
qed

lemma GetDistance_loop_bounds:
  assumes "0 \<le> maxDist" "maxDist < 2 ^ 63"
    and "0 \<le> acc"
    and "acc + maxDist * len (considered_entries xs) < 2 ^ 63"
  shows "acc \<le> GetDistance_loop xs mapB maxDist (- maxDist) acc
         \<and> GetDistance_loop xs mapB maxDist (- maxDist) acc
             \<le> acc + maxDist * len (considered_entries xs)"
  using assms(3,4)
proof (induction xs arbitrary: acc)
  case Nil
  then show ?case by (simp add: considered_entries_def len_def)
next
  case (Cons entry xs)
  obtain key rankA where entry: "entry = (key, rankA)" by (cases entry)
  have n: "0 \<le> maxDist * len (considered_entries xs)"
    using assms(1) by (simp add: len_def)
  show ?case
  proof (cases "rankA > 300")
    case True
    with Cons show ?thesis by (simp add: entry considered_entries_def)
  next
    case False
    let ?diff = "GetDistance_diff mapB maxDist (- maxDist) key rankA"
    have diff: "0 \<le> ?diff" "?diff \<le> maxDist"
      using GetDistance_diff_range [OF assms(1,2)] by blast+
    have "len (considered_entries (entry # xs)) = 1 + len (considered_entries xs)"
      using False by (simp add: entry considered_entries_def len_def)
    then have len: "maxDist * len (considered_entries (entry # xs))
                    = maxDist + maxDist * len (considered_entries xs)"
      by (simp add: algebra_simps)
    have total: "acc + maxDist + maxDist * len (considered_entries xs) < 2 ^ 63"
      using Cons.prems(2) by (simp add: len)
    have "in_int64 (acc + ?diff)"
      using Cons.prems(1) diff total n by (simp add: in_int64_def)
    then have w: "wrap64 (acc + ?diff) = acc + ?diff" by (rule wrap64_id)
    have "acc + ?diff \<le> GetDistance_loop xs mapB maxDist (- maxDist) (acc + ?diff)
          \<and> GetDistance_loop xs mapB maxDist (- maxDist) (acc + ?diff)
              \<le> acc + ?diff + maxDist * len (considered_entries xs)"
      using Cons.prems(1) diff total by (intro Cons.IH) auto
    then have "acc \<le> GetDistance_loop xs mapB maxDist (- maxDist) (acc + ?diff)
          \<and> GetDistance_loop xs mapB maxDist (- maxDist) (acc + ?diff)
              \<le> acc + maxDist * len (considered_entries (entry # xs))"
      using diff unfolding len by linarith
    then show ?thesis
      using False by (simp add: entry w)
  qed
qed

lemma dense_distinct_ranks:
  assumes "distinct (map fst m)" and "dense m"
  shows "distinct (map snd m)"
proof -
  have d: "distinct m" using assms(1) by (rule distinct_map [THEN iffD1, THEN conjunct1])
  have "card (snd ` set m) = card {1 .. len m}" using assms(2) by (simp add: dense_def)
  also have "\<dots> = length m" by (simp add: len_def)
  also have "\<dots> = card (set m)" using d by (simp add: distinct_card)
  finally have "inj_on snd (set m)" by (intro eq_card_imp_inj_on) simp_all
  with d show ?thesis by (simp add: distinct_map)
qed

lemma considered_count:
  assumes "rank_map sample" and "dense sample"
  shows "len (considered_entries sample) \<le> min (len sample) 300"
proof -
  let ?rs = "map snd (considered_entries sample)"
  have "distinct (map snd sample)"
    using assms by (intro dense_distinct_ranks) (simp_all add: rank_map_def is_map_def)
  then have "distinct ?rs"
    by (simp add: considered_entries_def distinct_map_filter)
  then have "card (set ?rs) = length ?rs" by (rule distinct_card)
  moreover have "set ?rs \<subseteq> {1 .. 300}"
    using assms(1) by (auto simp: considered_entries_def rank_map_def)
  then have "card (set ?rs) \<le> card {1 .. 300 :: int}" by (intro card_mono) simp_all
  ultimately have "length (considered_entries sample) \<le> 300" by simp
  moreover have "length (considered_entries sample) \<le> length sample"
    by (simp add: considered_entries_def)
  ultimately show ?thesis by (simp add: len_def)
qed

lemma GetDistance_bounds:
  assumes "rank_map sample" and "dense sample"
    and "S = len profile" and "S * min (len sample) 300 < 2 ^ 63"
  shows "0 \<le> GetDistance sample profile S
         \<and> GetDistance sample profile S \<le> S * min (len sample) 300"
proof (cases "considered_entries sample = []")
  case True
  have "GetDistance_loop xs mapB maxDist negMaxDist acc = acc"
    if "considered_entries xs = []" for xs mapB maxDist negMaxDist acc
    using that by (induction xs) (auto simp: considered_entries_def split: if_splits)
  then have "GetDistance sample profile S = 0"
    using True by (simp add: GetDistance_def)
  then show ?thesis using assms(3) by (simp add: len_def)
next
  case False
  have S: "0 \<le> S" by (simp add: assms(3) len_def)
  have c: "len (considered_entries sample) \<le> min (len sample) 300"
    using assms(1,2) by (rule considered_count)
  have c1: "1 \<le> len (considered_entries sample)"
    using False by (cases "considered_entries sample") (simp_all add: len_def)
  have le: "S * len (considered_entries sample) \<le> S * min (len sample) 300"
    using S c by (rule mult_left_mono [rotated])
  have "S * 1 \<le> S * len (considered_entries sample)"
    using S c1 by (rule mult_left_mono [rotated])
  with le assms(4) have S63: "S < 2 ^ 63" by simp
  have neg: "wrap64 ((- 1) * S) = - S"
    using S S63 by (simp add: wrap64_id in_int64_def)
  have "0 \<le> GetDistance_loop sample profile S (- S) 0
        \<and> GetDistance_loop sample profile S (- S) 0 \<le> 0 + S * len (considered_entries sample)"
    using le assms(4) by (intro GetDistance_loop_bounds S S63) simp_all
  with le show ?thesis
    using neg by (simp add: GetDistance_def)
qed


text \<open>
  The rounding of a format: \<open>floor_log2\<close> finds the binade, and a value between 0
  and an integer below \<open>2^p\<close> is rounded to a value between them; an integer below
  \<open>2^p\<close> is kept.
\<close>

lemma pow2_powi: "pow2 k = 2 powi k"
  by (simp add: pow2_def power_int_def inverse_eq_divide power_one_over)

lemma pow2_pos: "0 < pow2 k"
  by (simp add: pow2_powi)

lemma floor_log2_bounds:
  assumes "0 < x"
  shows "pow2 (floor_log2 x) \<le> x \<and> x < pow2 (floor_log2 x + 1)"
proof (cases "1 \<le> x")
  case True
  let ?n = "\<lfloor>x\<rfloor>"
  have n: "0 < ?n" using True by linarith
  have b: "1 \<le> bitlen ?n" using n bitlen_eq_zero_iff [of ?n] bitlen_nonneg [of ?n] by linarith
  from bitlen_bounds [OF n] have lo: "2 ^ nat (bitlen ?n - 1) \<le> ?n" and hi: "?n < 2 ^ nat (bitlen ?n)"
    by blast+
  have "(2::rat) ^ nat (bitlen ?n - 1) = of_int (2 ^ nat (bitlen ?n - 1))" by simp
  also have "\<dots> \<le> of_int ?n" using lo by (simp only: of_int_le_iff)
  also have "\<dots> \<le> x" by simp
  finally have 1: "(2::rat) ^ nat (bitlen ?n - 1) \<le> x" .
  have "?n + 1 \<le> 2 ^ nat (bitlen ?n)" using hi by simp
  then have "(of_int (?n + 1) :: rat) \<le> of_int (2 ^ nat (bitlen ?n))" by (simp only: of_int_le_iff)
  moreover have "x < of_int (?n + 1)" by linarith
  ultimately have 2: "x < 2 ^ nat (bitlen ?n)" by simp
  show ?thesis using True b 1 2 by (simp add: floor_log2_def pow2_def)
next
  case False
  let ?y = "1 / x"
  let ?m = "\<lceil>?y\<rceil> - 1"
  have y: "1 < ?y" using False assms by simp
  have m: "0 < ?m" using y by linarith
  have b: "1 \<le> bitlen ?m" using m bitlen_eq_zero_iff [of ?m] bitlen_nonneg [of ?m] by linarith
  from bitlen_bounds [OF m] have lo: "2 ^ nat (bitlen ?m - 1) \<le> ?m" and hi: "?m < 2 ^ nat (bitlen ?m)"
    by blast+
  have "(2::rat) ^ nat (bitlen ?m - 1) = of_int (2 ^ nat (bitlen ?m - 1))" by simp
  also have "\<dots> \<le> of_int ?m" using lo by (simp only: of_int_le_iff)
  also have "\<dots> < ?y" by linarith
  finally have 1: "(2::rat) ^ nat (bitlen ?m - 1) < ?y" .
  have c: "\<lceil>?y\<rceil> \<le> 2 ^ nat (bitlen ?m)" using hi by simp
  have "?y \<le> of_int \<lceil>?y\<rceil>" by (rule le_of_int_ceiling)
  also have "\<dots> \<le> of_int (2 ^ nat (bitlen ?m))" using c by (simp only: of_int_le_iff)
  finally have 2: "?y \<le> 2 ^ nat (bitlen ?m)" by simp
  have lower: "1 / 2 ^ nat (bitlen ?m) \<le> x"
    using 2 assms by (simp add: field_simps)
  have upper: "x < 1 / 2 ^ nat (bitlen ?m - 1)"
    using 1 assms by (simp add: field_simps)
  have fl: "floor_log2 x = - bitlen ?m" using False by (simp add: floor_log2_def)
  show ?thesis
  proof (cases "bitlen ?m = 1")
    case True
    then show ?thesis using lower upper by (simp add: fl pow2_def)
  next
    case False
    then have "1 < bitlen ?m" using b by simp
    then have "nat (bitlen ?m - 1) = nat (- (- bitlen ?m + 1))" by simp
    then show ?thesis using lower upper b \<open>1 < bitlen ?m\<close> by (simp add: fl pow2_def)
  qed
qed

lemma floor_log2_less:
  assumes "0 < x" and "x < pow2 k"
  shows "floor_log2 x < k"
proof (rule ccontr)
  assume "\<not> floor_log2 x < k"
  then have "k \<le> floor_log2 x" by simp
  then have "pow2 k \<le> pow2 (floor_log2 x)"
    unfolding pow2_powi by (intro power_int_increasing) simp_all
  with floor_log2_bounds [OF assms(1)] assms(2) show False by simp
qed

lemma floor_log2_ge:
  assumes "pow2 k \<le> x"
  shows "k \<le> floor_log2 x"
proof (rule ccontr)
  assume "\<not> k \<le> floor_log2 x"
  then have "floor_log2 x + 1 \<le> k" by simp
  then have "pow2 (floor_log2 x + 1) \<le> pow2 k"
    unfolding pow2_powi by (intro power_int_increasing) simp_all
  moreover have "0 < x" using assms pow2_pos [of k] by simp
  ultimately show False using floor_log2_bounds [of x] assms by simp
qed

lemma round_to_even_of_int: "round_to_even (of_int n) = n"
  by (simp add: round_to_even_def)

lemma round_to_even_le:
  assumes "x \<le> of_int n"
  shows "round_to_even x \<le> n"
proof -
  have f: "\<lfloor>x\<rfloor> \<le> n" using assms by (simp add: floor_le_iff)
  show ?thesis
  proof (cases "x = of_int \<lfloor>x\<rfloor>")
    case True
    then show ?thesis using f by (simp add: round_to_even_def)
  next
    case False
    then have "\<lfloor>x\<rfloor> < n" using assms f
      by (metis le_floor_iff less_le of_int_floor_le order_antisym)
    then show ?thesis by (simp add: round_to_even_def Let_def)
  qed
qed

lemma round_to_even_ge:
  assumes "of_int n \<le> x"
  shows "n \<le> round_to_even x"
proof -
  have "n \<le> \<lfloor>x\<rfloor>" using assms by (simp add: le_floor_iff)
  then show ?thesis by (simp add: round_to_even_def Let_def)
qed


lemma pow2_nonpos: "q \<le> 0 \<Longrightarrow> pow2 q = 1 / 2 ^ nat (- q)"
  by (cases "q = 0") (simp_all add: pow2_def)

lemma fround_nonzero:
  assumes "x \<noteq> 0"
    and "q = max (floor_log2 \<bar>x\<bar>) emin - (int p - 1)"
    and "y = of_int (round_to_even (x / pow2 q)) * pow2 q"
  shows "fround p emin emax x =
    (if y \<noteq> 0 \<and> emax < floor_log2 \<bar>y\<bar> then (if 0 < x then PosInf else NegInf)
     else Finite y)"
  unfolding fround_def Let_def assms(2,3) using assms(1) by simp

lemma fround_bounds:
  assumes "0 \<le> x" and "x \<le> of_int c" and "of_int c < pow2 (int p)"
    and "emin < int p" and "int p \<le> emax + 1"
  shows "\<exists>y. fround p emin emax x = Finite y \<and> 0 \<le> y \<and> y \<le> of_int c"
proof (cases "x = 0")
  case True
  then show ?thesis using assms(1,2) by (simp add: fround_def)
next
  case False
  define q where "q = max (floor_log2 \<bar>x\<bar>) emin - (int p - 1)"
  define y where "y = of_int (round_to_even (x / pow2 q)) * pow2 q"
  define m where "m = round_to_even (x / pow2 q)"
  define k where "k = nat (- q)"
  have y_m: "y = of_int m * pow2 q" by (simp add: y_def m_def)
  have x: "0 < x" using False assms(1) by simp
  have "x < pow2 (int p)" using assms(2,3) by simp
  then have "floor_log2 x < int p" using x by (intro floor_log2_less)
  then have fl: "floor_log2 \<bar>x\<bar> < int p" using x by simp
  have q: "q \<le> 0" using fl assms(4) by (simp add: q_def)
  have ulp: "pow2 q = 1 / 2 ^ k" unfolding k_def using q by (rule pow2_nonpos)
  have "x / pow2 q \<le> of_int (c * 2 ^ k)"
    using assms(2) by (simp add: ulp)
  then have m_le: "m \<le> c * 2 ^ k" unfolding m_def by (rule round_to_even_le)
  have "of_int 0 \<le> x / pow2 q" using x by (simp add: ulp)
  then have m_ge: "0 \<le> m" unfolding m_def by (rule round_to_even_ge)
  have y_ge: "0 \<le> y" using m_ge by (simp add: y_m ulp)
  have "(of_int m :: rat) \<le> of_int (c * 2 ^ k)" using m_le by (simp only: of_int_le_iff)
  then have y_le: "y \<le> of_int c" by (simp add: y_m ulp field_simps)
  have no_overflow: "\<not> (y \<noteq> 0 \<and> emax < floor_log2 \<bar>y\<bar>)"
  proof
    assume a: "y \<noteq> 0 \<and> emax < floor_log2 \<bar>y\<bar>"
    then have "0 < y" using y_ge by linarith
    moreover have "y < pow2 (int p)" using y_le assms(3) by linarith
    ultimately have "floor_log2 y < int p" by (intro floor_log2_less)
    moreover have "\<bar>y\<bar> = y" using y_ge by (rule abs_of_nonneg)
    ultimately show False using a assms(5) by simp
  qed
  have "fround p emin emax x = Finite y"
    unfolding fround_nonzero [OF False q_def y_def] by (rule if_not_P [OF no_overflow])
  with y_ge y_le show ?thesis by blast
qed

lemma fround_int_exact:
  assumes "0 \<le> n" and "of_int n < pow2 (int p)" and "emin \<le> 0" and "int p \<le> emax + 1"
  shows "fround p emin emax (of_int n) = Finite (of_int n)"
proof (cases "n = 0")
  case True
  then show ?thesis by (simp add: fround_def)
next
  case False
  define x :: rat where "x = of_int n"
  define q where "q = max (floor_log2 \<bar>x\<bar>) emin - (int p - 1)"
  define y where "y = of_int (round_to_even (x / pow2 q)) * pow2 q"
  define k where "k = nat (- q)"
  have n: "1 \<le> n" using False assms(1) by simp
  then have x: "0 < x" by (simp add: x_def)
  then have ax: "\<bar>x\<bar> = x" by simp
  have nz: "x \<noteq> 0" using x by simp
  have "pow2 0 \<le> x" using n by (simp add: pow2_def x_def)
  then have fl0: "0 \<le> floor_log2 x" by (rule floor_log2_ge)
  have "x < pow2 (int p)" using assms(2) by (simp add: x_def)
  then have fl: "floor_log2 x < int p" using x by (intro floor_log2_less)
  have q: "q \<le> 0" unfolding q_def ax using fl fl0 assms(3) by simp
  have ulp: "pow2 q = 1 / 2 ^ k" unfolding k_def using q by (rule pow2_nonpos)
  have "x / pow2 q = of_int (n * 2 ^ k)" by (simp add: ulp x_def)
  then have "round_to_even (x / pow2 q) = n * 2 ^ k" by (simp only: round_to_even_of_int)
  then have y: "y = x" by (simp add: y_def ulp x_def)
  have no_overflow: "\<not> (y \<noteq> 0 \<and> emax < floor_log2 \<bar>y\<bar>)"
    unfolding y ax using fl assms(4) by simp
  have "fround p emin emax x = Finite y"
    unfolding fround_nonzero [OF nz q_def y_def] by (rule if_not_P [OF no_overflow])
  then show ?thesis by (simp only: y x_def)
qed

lemma pow2_53: "pow2 53 = 9007199254740992"
  by (simp add: pow2_def)

lemma round64_bounds:
  assumes "0 \<le> x" and "x \<le> of_int c" and "c < 2 ^ 53"
  shows "\<exists>y. round64 x = Finite y \<and> 0 \<le> y \<and> y \<le> of_int c"
proof -
  have "(of_int c :: rat) < of_int (2 ^ 53)" using assms(3) by (simp only: of_int_less_iff)
  then have "of_int c < pow2 (int 53)" by (simp add: pow2_53)
  then show ?thesis
    unfolding round64_def using assms(1,2) by (intro fround_bounds) simp_all
qed

lemma float64_exact:
  assumes "0 \<le> n" and "n < 2 ^ 53"
  shows "float64 n = Finite (of_int n)"
proof -
  have "(of_int n :: rat) < of_int (2 ^ 53)" using assms(2) by (simp only: of_int_less_iff)
  then have "of_int n < pow2 (int 53)" by (simp add: pow2_53)
  then show ?thesis
    unfolding float64_def round64_def using assms(1) by (intro fround_int_exact) simp_all
qed

text \<open>
  When neither the sample nor the profile is empty, the divisor is positive and the
  confidence is between 0 and 100 (for a profile so small that the greatest possible
  distance is below \<open>2^53\<close>, where the conversions to \<^verbatim>\<open>float64\<close> are
  exact).
\<close>

lemma confidence_of_range:
  assumes "rank_map sample" and "dense sample" and "sample \<noteq> []"
    and "Profile language \<noteq> []" and "len (Profile language) * 300 < 2 ^ 53"
  shows "0 \<le> confidence_of e sample (min (len sample) 300) language
         \<and> confidence_of e sample (min (len sample) 300) language \<le> 100"
proof -
  let ?S = "len (Profile language)"
  let ?n = "min (len sample) 300"
  let ?dist = "GetDistance sample (Profile language) ?S"
  have S: "1 \<le> ?S" using assms(4) by (cases "Profile language") (simp_all add: len_def)
  have n: "1 \<le> ?n" "?n \<le> 300" using assms(3) by (cases sample; simp add: len_def)+
  have "?S * ?n \<le> ?S * 300" using S n by (intro mult_left_mono) simp_all
  with assms(5) have m53: "?S * ?n < 2 ^ 53" by simp
  have "1 * 1 \<le> ?S * ?n" using S n by (intro mult_mono) simp_all
  then have m1: "1 \<le> ?S * ?n" by simp
  have "in_int64 (?S * ?n)" using m53 m1 by (simp add: in_int64_def)
  then have w: "wrap64 (?S * ?n) = ?S * ?n" by (rule wrap64_id)
  have d: "0 \<le> ?dist" "?dist \<le> ?S * ?n"
    using m53 GetDistance_bounds [OF assms(1,2) refl, of "Profile language"] by simp_all
  have fd: "float64 ?dist = Finite (of_int ?dist)"
    using d m53 by (intro float64_exact) simp_all
  have fm: "float64 (?S * ?n) = Finite (of_int (?S * ?n))"
    using m1 m53 by (intro float64_exact) simp_all
  let ?q = "(of_int ?dist :: rat) / of_int (?S * ?n)"
  have pos: "(0 :: rat) < of_int (?S * ?n)" using m1 by (simp only: of_int_0_less_iff)
  have "(of_int ?dist :: rat) \<le> of_int (?S * ?n)" using d(2) by (simp only: of_int_le_iff)
  then have q: "0 \<le> ?q" "?q \<le> of_int 1" using d(1) pos by (simp_all add: field_simps)
  obtain a where a: "round64 ?q = Finite a" "0 \<le> a" "a \<le> 1"
    using round64_bounds [OF q] by auto
  have "0 \<le> 1 - a" "1 - a \<le> of_int 1" using a by simp_all
  then obtain r where r: "round64 (1 - a) = Finite r" "0 \<le> r" "r \<le> 1"
    using round64_bounds [of "1 - a" 1] by auto
  have "0 \<le> r * 100" "r * 100 \<le> of_int 100" using r by simp_all
  then obtain c where c: "round64 (r * 100) = Finite c" "0 \<le> c" "c \<le> 100"
    using round64_bounds [of "r * 100" 100] by auto
  have t: "0 \<le> trunc c" "trunc c \<le> 100"
    using c by (simp_all add: trunc_def floor_le_iff) 
  have "?S * ?n \<noteq> 0" using m1 by linarith
  then have nz: "(of_int (?S * ?n) :: rat) \<noteq> 0" by (simp only: of_int_eq_0_iff not_False_eq_True)
  have div: "fdiv round64 (float64 ?dist) (float64 (?S * ?n)) = Finite a"
    unfolding fd fm fdiv.simps using nz a(1) by (simp only: if_False)
  have sub: "fsub round64 (Finite 1) (Finite a) = Finite r"
    using r(1) by simp
  have mul: "fmul round64 (Finite r) (Finite 100) = Finite c"
    using c(1) by simp
  have "in_int64 (trunc c)" using t by (simp add: in_int64_def)
  then have conv: "float_to_int (float64_invalid e) (Finite c) = trunc c"
    by (simp add: float_to_int_def)
  have conf: "confidence_of e sample ?n language = trunc c"
    unfolding confidence_of_def Let_def w div sub mul conv ..
  show ?thesis using t by (simp add: conf)
qed

section \<open>A zero divisor\<close>

text \<open>
  \<^verbatim>\<open>closestFromTable\<close> divides by \<^verbatim>\<open>float64(maxPossibleDistance)\<close>
  without looking at it. When the profile or the sample is empty, the distance and the
  divisor are both zero, the quotient is NaN, and the confidence is whatever the
  implementation makes of \<^verbatim>\<open>int(NaN)\<close>.
\<close>

lemma GetDistance_loop_zero: "GetDistance_loop mapA [] 0 0 0 = 0"
  by (induction mapA) (auto simp: GetDistance_diff_def wrap64_def)

lemma GetDistance_empty_profile: "GetDistance mapA [] 0 = 0"
  by (simp add: GetDistance_def GetDistance_loop_zero wrap64_def)

lemma round64_zero: "round64 0 = Finite 0"
  by (simp add: round64_def fround_def)

lemma confidence_of_zero_by_zero:
  assumes "wrap64 (len (Profile language) * inputSize) = 0"
    and "GetDistance lookupMap (Profile language) (len (Profile language)) = 0"
  shows "confidence_of e lookupMap inputSize language = float64_invalid e NaN"
  using assms by (simp add: confidence_of_def float64_def round64_zero float_to_int_def)

text \<open>
  Claim C3 (the code differs). A language whose profile is empty does not get the
  confidence zero: its confidence is the implementation's conversion of NaN, on amd64
  the smallest integer. The loop goes on to the other languages and returns normally.
\<close>

theorem empty_profile_confidence:
  "confidence_of e lookupMap inputSize \<lparr>Profile = [], Name = name\<rparr> = float64_invalid e NaN
   \<and> closestFromTable (example_env amd64_invalid)
        \<lparr>Languages = Some [\<lparr>Profile = [], Name = ''xx''\<rparr>,
                            \<lparr>Profile = [(''a'', 1)], Name = ''yy''\<rparr>],
          MinimumConfidence = DefaultMinimumConfidence\<rparr> [(''a'', 1)]
       = Inr [\<lparr>ResultName = ''yy'', Confidence = 100\<rparr>,
              \<lparr>ResultName = ''xx'', Confidence = - 9223372036854775808\<rparr>]"
proof -
  have "confidence_of e lookupMap inputSize \<lparr>Profile = [], Name = name\<rparr> = float64_invalid e NaN"
    by (rule confidence_of_zero_by_zero) (simp_all add: len_def wrap64_def GetDistance_empty_profile)
  moreover have "closestFromTable (example_env amd64_invalid)
        \<lparr>Languages = Some [\<lparr>Profile = [], Name = ''xx''\<rparr>,
                            \<lparr>Profile = [(''a'', 1)], Name = ''yy''\<rparr>],
          MinimumConfidence = DefaultMinimumConfidence\<rparr> [(''a'', 1)]
       = Inr [\<lparr>ResultName = ''yy'', Confidence = 100\<rparr>,
              \<lparr>ResultName = ''xx'', Confidence = - 9223372036854775808\<rparr>]"
    by code_simp
  ultimately show ?thesis by simp
qed

text \<open>
  Claim C2 (the code differs). For the empty sample the confidence of every language is
  the implementation's conversion of NaN, on amd64 the smallest integer, which is not
  in the range from 0 to 100.
\<close>

theorem empty_sample_confidence:
  "confidence_of e [] 0 language = float64_invalid e NaN
   \<and> closestFromTable (example_env amd64_invalid)
        \<lparr>Languages = Some [\<lparr>Profile = [(''a'', 1)], Name = ''yy''\<rparr>],
          MinimumConfidence = DefaultMinimumConfidence\<rparr> []
       = Inr [\<lparr>ResultName = ''yy'', Confidence = - 9223372036854775808\<rparr>]"
proof -
  have "confidence_of e [] 0 language = float64_invalid e NaN"
    by (rule confidence_of_zero_by_zero) (simp_all add: wrap64_def GetDistance_def)
  moreover have "closestFromTable (example_env amd64_invalid)
        \<lparr>Languages = Some [\<lparr>Profile = [(''a'', 1)], Name = ''yy''\<rparr>],
          MinimumConfidence = DefaultMinimumConfidence\<rparr> []
       = Inr [\<lparr>ResultName = ''yy'', Confidence = - 9223372036854775808\<rparr>]"
    by code_simp
  ultimately show ?thesis by simp
qed

section \<open>A nil collection\<close>

text \<open>
  Claim C5 (the code differs). On a detector whose \<^verbatim>\<open>Languages\<close> pointer is
  nil, \<^verbatim>\<open>GetLanguages\<close> and \<^verbatim>\<open>GetClosestLanguage\<close> panic on the
  empty text (as on any other), where \<^verbatim>\<open>AddLanguage\<close> replaces the pointer.
  And on a detector with a language, where the sample of the empty text is empty, the
  answer depends on the conversion of NaN: where that is zero, a threshold below one
  percent lets \<^verbatim>\<open>GetClosestLanguage\<close> return the language's name.
\<close>

theorem nil_detector_panics:
  "snd (GetLanguages e \<lparr>Languages = None, MinimumConfidence = threshold\<rparr> '''')
     = Inl NilPointerDereference
   \<and> snd (snd (GetClosestLanguage e \<lparr>Languages = None, MinimumConfidence = threshold\<rparr> ''''))
     = Inl NilPointerDereference
   \<and> snd (GetClosestLanguage (example_env arm64_invalid) (one_language (round32 (1 / 200))) '''')
     = ([], Inr ''xx'')"
proof -
  have "snd (GetClosestLanguage (example_env arm64_invalid) (one_language (round32 (1 / 200))) '''')
     = ([], Inr ''xx'')"
    by code_simp
  then show ?thesis
    by (simp add: GetLanguages_def GetClosestLanguage_def closestFromTable_None deref_def Let_def)
qed

text \<open>
  A threshold outside the interval that is a number: on a detector that has a collection
  the call goes on as it does with the default threshold, and returns.
\<close>

lemma DefaultMinimumConfidence_value:
  "DefaultMinimumConfidence = Finite (11744051 / 16777216)"
  unfolding DefaultMinimumConfidence_def by code_simp

lemma GetClosestLanguage_invalid_threshold:
  assumes "\<not> in_unit_interval (MinimumConfidence d)" and "MinimumConfidence d \<noteq> NaN"
    and "Languages d = Some languages"
  shows "GetClosestLanguage e d text
           = GetClosestLanguage e (d\<lparr>MinimumConfidence := DefaultMinimumConfidence\<rparr>) text
         \<and> MinimumConfidence (fst (GetClosestLanguage e d text)) = DefaultMinimumConfidence
         \<and> (\<exists>name. snd (snd (GetClosestLanguage e d text)) = Inr name)"
proof -
  let ?d = "d\<lparr>MinimumConfidence := DefaultMinimumConfidence\<rparr>"
  have g: "fle (MinimumConfidence d) (Finite 0) \<or> fgt (MinimumConfidence d) (Finite 1)"
    using assms(1,2) by (intro outside_written)
  have g': "\<not> (fle (MinimumConfidence ?d) (Finite 0) \<or> fgt (MinimumConfidence ?d) (Finite 1))"
    by (simp add: DefaultMinimumConfidence_value)
  have 1: "GetClosestLanguage e d text = GetClosestLanguage e ?d text"
    unfolding GetClosestLanguage_def Let_def using g g' by simp
  have 2: "MinimumConfidence (fst (GetClosestLanguage e d text)) = DefaultMinimumConfidence"
    using g by (simp add: GetClosestLanguage_detector)
  have "Languages ?d = Some languages" using assms(3) by simp
  then have "closestFromTable e ?d lm
             = Inr (sort_Sort e (map (result_of e lm (min (len lm) 300)) languages))" for lm
    by (rule closestFromTable_Some)
  then have 3: "\<exists>name. snd (snd (GetClosestLanguage e d text)) = Inr name"
    unfolding GetClosestLanguage_def Let_def using g assms(3) by (simp add: deref_def)
  from 1 2 3 show ?thesis by blast
qed

text \<open>
  Claim C6 (the code differs). On the zero value of \<^verbatim>\<open>Detector\<close> (a nil
  pointer, the threshold 0) \<^verbatim>\<open>GetClosestLanguage\<close> replaces the threshold by
  the default and then panics on the nil pointer. A threshold that is NaN is outside the
  interval and is not replaced: both comparisons of the guard are false for it.
\<close>

theorem invalid_threshold_nil_panics:
  "GetClosestLanguage e \<lparr>Languages = None, MinimumConfidence = Finite 0\<rparr> text
     = (\<lparr>Languages = None, MinimumConfidence = DefaultMinimumConfidence\<rparr>, [],
        Inl NilPointerDereference)
   \<and> fst (GetClosestLanguage e \<lparr>Languages = languages, MinimumConfidence = NaN\<rparr> text)
     = \<lparr>Languages = languages, MinimumConfidence = NaN\<rparr>"
proof
  show "GetClosestLanguage e \<lparr>Languages = None, MinimumConfidence = Finite 0\<rparr> text
     = (\<lparr>Languages = None, MinimumConfidence = DefaultMinimumConfidence\<rparr>, [],
        Inl NilPointerDereference)"
    by (simp add: GetClosestLanguage_def deref_def Let_def)
  show "fst (GetClosestLanguage e \<lparr>Languages = languages, MinimumConfidence = NaN\<rparr> text)
     = \<lparr>Languages = languages, MinimumConfidence = NaN\<rparr>"
    by (simp add: GetClosestLanguage_detector)
qed

end
